theory Spec2Isabelle
  imports Complex_Main
begin

section \<open>MBM Music Visualizer: the frame loop of \<open>MusicVisualizer.process\<close>\<close>

text \<open>
  The development embeds \<^verbatim>\<open>mbmMusicVisualizer.py\<close>: the latent recurrence
  (\<^verbatim>\<open>_iterateLatentByMode\<close>, \<^verbatim>\<open>_applyFeatToLatent\<close>, \<^verbatim>\<open>_createLatent\<close>), the seed
  sequencer (\<^verbatim>\<open>_iterateSeedByMode\<close>) and the orchestrating method \<^verbatim>\<open>process\<close>.

  Modelling decisions:
  \<^item> A tensor is the list of its elements (its shape is its length). Elements, modifiers
    and limits are real numbers: rounding of floating point arithmetic is not modelled.
    The one float value kept apart is NaN, which \<^verbatim>\<open>torch.mean\<close> returns on an empty tensor
    and on which every comparison is false.
  \<^item> Tensor objects live in a store (address = index) because \<^verbatim>\<open>latent += modifier\<close>
    updates its object in place and \<^verbatim>\<open>clone()\<close> allocates a new one.
  \<^item> The instance attribute \<^verbatim>\<open>__isBouncingUp\<close>, the generator of Python's \<^verbatim>\<open>random\<close> module
    and numpy's global generator are fields of the state that every function passes on.
  \<^item> Library functions (\<^verbatim>\<open>random\<close>, \<^verbatim>\<open>numpy.random\<close>, ComfyUI's \<^verbatim>\<open>common_ksampler\<close>) are
    parameters, collected in the record \<open>externals\<close>.
  \<^item> A raised exception is a value \<open>Inl e\<close>; the state reached when it was raised is
    returned with it.
\<close>

subsection \<open>Tensors, scalars and the store\<close>

type_synonym tensor = "real list"

datatype scalar = Num real | NaN

text \<open>\<^verbatim>\<open>torch.mean(t)\<close>: NaN on an empty tensor.\<close>

definition torch_mean :: "tensor \<Rightarrow> scalar" where
  "torch_mean t = (if t = [] then NaN else Num (sum_list t / real (length t)))"

fun scalar_add :: "scalar \<Rightarrow> real \<Rightarrow> scalar" where
  "scalar_add (Num a) b = Num (a + b)"
| "scalar_add NaN b = NaN"

fun scalar_sub :: "scalar \<Rightarrow> real \<Rightarrow> scalar" where
  "scalar_sub (Num a) b = Num (a - b)"
| "scalar_sub NaN b = NaN"

text \<open>\<^verbatim>\<open>a > b\<close>, \<^verbatim>\<open>a < b\<close> and \<^verbatim>\<open>lo <= a <= hi\<close> on a scalar that may be NaN.\<close>

fun scalar_gt :: "scalar \<Rightarrow> real \<Rightarrow> bool" where
  "scalar_gt (Num a) b = (a > b)"
| "scalar_gt NaN b = False"

fun scalar_lt :: "scalar \<Rightarrow> real \<Rightarrow> bool" where
  "scalar_lt (Num a) b = (a < b)"
| "scalar_lt NaN b = False"

fun scalar_between :: "real \<Rightarrow> scalar \<Rightarrow> real \<Rightarrow> bool" where
  "scalar_between lo (Num a) hi = (lo \<le> a \<and> a \<le> hi)"
| "scalar_between lo NaN hi = False"

datatype py_error = IndexError | ValueError string

text \<open>
  Modelled from the spec: \<^verbatim>\<open>MbmPrompt\<close> and \<^verbatim>\<open>MbmPrompt.buildComfyUiPrompt\<close> live in
  \<^verbatim>\<open>mbmPrompt.py\<close>, which is not among the sources. A prompt frame carries positive and
  negative conditioning sequences and their pooling vectors; the builder packs a sequence
  and its pool into the conditioning the sampler takes, opaque to this code.
\<close>

record MbmPrompt =
  positive :: "tensor list"
  negative :: "tensor list"
  positivePool :: tensor
  negativePool :: tensor

datatype comfy_prompt = ComfyUiPrompt "tensor list" tensor

definition buildComfyUiPrompt :: "tensor list \<Rightarrow> tensor \<Rightarrow> comfy_prompt" where
  "buildComfyUiPrompt conditioning pool = ComfyUiPrompt conditioning pool"

text \<open>
  Modelled from the spec: \<^verbatim>\<open>chartData\<close> lives in \<^verbatim>\<open>mbmMVShared.py\<close>, which is not among
  the sources. It renders one labelled series as an image; the image is kept as the
  series and the label it was rendered from.
\<close>

datatype chart = Chart "scalar list" string

definition chartData :: "scalar list \<Rightarrow> string \<Rightarrow> chart" where
  "chartData series label = Chart series label"

text \<open>One invocation of the sampler: the arguments that vary from frame to frame.\<close>

record ksampler_call =
  call_seed :: int
  call_positive :: comfy_prompt
  call_negative :: comfy_prompt
  call_latent :: tensor

text \<open>
  The library functions. A generator state is a natural number; \<open>random_seed\<close> is the
  state \<^verbatim>\<open>random.seed(seed)\<close> installs, the others return the value drawn and the next
  state. \<open>common_ksampler\<close> stands for the call with the model, steps, cfg, sampler name,
  scheduler and denoise that \<^verbatim>\<open>process\<close> passes on unchanged at every frame.
\<close>

record externals =
  random_seed :: "int \<Rightarrow> nat"
  random_random :: "nat \<Rightarrow> real \<times> nat"
  random_randint :: "int \<Rightarrow> int \<Rightarrow> nat \<Rightarrow> int \<times> nat"
  np_random_normal :: "real \<Rightarrow> real \<Rightarrow> nat \<Rightarrow> nat \<Rightarrow> tensor \<times> nat"
  common_ksampler :: "int \<Rightarrow> comfy_prompt \<Rightarrow> comfy_prompt \<Rightarrow> tensor \<Rightarrow> tensor"

text \<open>
  The state outside the local variables of \<^verbatim>\<open>process\<close>. \<open>sampler_calls\<close> is the trace
  of sampler invocations, kept to state how often and with what the sampler was called.
\<close>

record state =
  store :: "tensor list"
  isBouncingUp :: bool
  py_random :: nat
  np_random :: nat
  sampler_calls :: "ksampler_call list"

text \<open>\<^verbatim>\<open>t.clone()\<close>, \<^verbatim>\<open>t += m\<close> and \<^verbatim>\<open>t -= m\<close> on the tensor object at address \<open>a\<close>.\<close>

definition clone :: "nat \<Rightarrow> state \<Rightarrow> nat \<times> state" where
  "clone a s = (length (store s), s\<lparr>store := store s @ [store s ! a]\<rparr>)"

definition iadd :: "nat \<Rightarrow> real \<Rightarrow> state \<Rightarrow> state" where
  "iadd a m s = s\<lparr>store := (store s)[a := map (\<lambda>x. x + m) (store s ! a)]\<rparr>"

definition isub :: "nat \<Rightarrow> real \<Rightarrow> state \<Rightarrow> state" where
  "isub a m s = s\<lparr>store := (store s)[a := map (\<lambda>x. x - m) (store s ! a)]\<rparr>"

subsection \<open>Class constants\<close>

abbreviation SEED_MODE_FIXED :: string where "SEED_MODE_FIXED \<equiv> ''fixed''"
abbreviation SEED_MODE_RANDOM :: string where "SEED_MODE_RANDOM \<equiv> ''random''"
abbreviation SEED_MODE_INCREASE :: string where "SEED_MODE_INCREASE \<equiv> ''increase''"
abbreviation SEED_MODE_DECREASE :: string where "SEED_MODE_DECREASE \<equiv> ''decrease''"

abbreviation LATENT_MODE_STATIC :: string where "LATENT_MODE_STATIC \<equiv> ''static''"
abbreviation LATENT_MODE_INCREASE :: string where "LATENT_MODE_INCREASE \<equiv> ''increase''"
abbreviation LATENT_MODE_DECREASE :: string where "LATENT_MODE_DECREASE \<equiv> ''decrease''"
abbreviation LATENT_MODE_FLOW :: string where "LATENT_MODE_FLOW \<equiv> ''flow''"
abbreviation LATENT_MODE_GAUSS :: string where "LATENT_MODE_GAUSS \<equiv> ''guassian''"
abbreviation LATENT_MODE_BOUNCE :: string where "LATENT_MODE_BOUNCE \<equiv> ''bounce''"

abbreviation FEAT_APPLY_METHOD_ADD :: string where "FEAT_APPLY_METHOD_ADD \<equiv> ''add''"
abbreviation FEAT_APPLY_METHOD_SUBTRACT :: string where "FEAT_APPLY_METHOD_SUBTRACT \<equiv> ''subtract''"

subsection \<open>The latent recurrence\<close>

text \<open>\<^verbatim>\<open>_applyFeatToLatent\<close>: any method other than \<^verbatim>\<open>add\<close> subtracts.\<close>

definition applyFeatToLatent :: "nat \<Rightarrow> string \<Rightarrow> real \<Rightarrow> real \<Rightarrow> state \<Rightarrow> nat \<times> state" where
  "applyFeatToLatent latent method modLimit modifier s =
     (if method = FEAT_APPLY_METHOD_ADD then
        (if modLimit > 0 \<and> scalar_gt (scalar_add (torch_mean (store s ! latent)) modifier) modLimit
         then (latent, s)
         else (latent, iadd latent modifier s))
      else
        (if modLimit > 0 \<and> scalar_lt (scalar_sub (torch_mean (store s ! latent)) modifier) (- modLimit)
         then (latent, s)
         else (latent, isub latent modifier s)))"

text \<open>\<^verbatim>\<open>_createLatent(size)\<close>: a new tensor object drawn from numpy's global generator.\<close>

definition createLatent :: "externals \<Rightarrow> nat \<Rightarrow> state \<Rightarrow> nat \<times> state" where
  "createLatent X shape s =
     (case np_random_normal X 3 2.5 shape (np_random s) of
        (t, g) \<Rightarrow> (length (store s), s\<lparr>store := store s @ [t], np_random := g\<rparr>))"

text \<open>
  \<^verbatim>\<open>_iterateLatentByMode\<close>. The three \<^verbatim>\<open>if\<close> blocks of the method run in order: flow is
  resolved to increase or decrease, then bounce is resolved, then the resolved mode is
  dispatched.
\<close>

definition iterateLatentByMode ::
  "externals \<Rightarrow> nat \<Rightarrow> string \<Rightarrow> real \<Rightarrow> real \<Rightarrow> state \<Rightarrow> nat \<times> state" where
  "iterateLatentByMode X latent latentMode modLimit modifier s =
     (let (mode1, s1) =
            (if latentMode = LATENT_MODE_FLOW then
               (case random_random X (py_random s) of
                  (r, g) \<Rightarrow> (if r < 0.5 then LATENT_MODE_INCREASE else LATENT_MODE_DECREASE,
                             s\<lparr>py_random := g\<rparr>))
             else (latentMode, s));
          (mode2, s2) =
            (if mode1 = LATENT_MODE_BOUNCE then
               (if modLimit > 0 then
                  (let curLatentMean = torch_mean (store s1 ! latent);
                       nextValue = (if isBouncingUp s1 then scalar_add curLatentMean modifier
                                    else scalar_sub curLatentMean modifier)
                   in if scalar_between (- modLimit) nextValue modLimit then
                        (if isBouncingUp s1 then LATENT_MODE_INCREASE else LATENT_MODE_DECREASE, s1)
                      else
                        (if isBouncingUp s1 then LATENT_MODE_DECREASE else LATENT_MODE_INCREASE,
                         s1\<lparr>isBouncingUp := \<not> isBouncingUp s1\<rparr>))
                else (LATENT_MODE_INCREASE, s1))
             else (mode1, s1))
      in if mode2 = LATENT_MODE_INCREASE then
           applyFeatToLatent latent FEAT_APPLY_METHOD_ADD modLimit modifier s2
         else if mode2 = LATENT_MODE_DECREASE then
           applyFeatToLatent latent FEAT_APPLY_METHOD_SUBTRACT modLimit modifier s2
         else if mode2 = LATENT_MODE_GAUSS then
           createLatent X (length (store s2 ! latent)) s2
         else (latent, s2))"

subsection \<open>The seed sequencer\<close>

definition iterateSeedByMode :: "externals \<Rightarrow> int \<Rightarrow> string \<Rightarrow> state \<Rightarrow> int \<times> state" where
  "iterateSeedByMode X seed seedMode s =
     (if seedMode = SEED_MODE_RANDOM then
        (case random_randint X 0 0xffffffffffffffff (py_random s) of
           (v, g) \<Rightarrow> (v, s\<lparr>py_random := g\<rparr>))
      else if seedMode = SEED_MODE_INCREASE then (seed + 1, s)
      else if seedMode = SEED_MODE_DECREASE then (seed - 1, s)
      else (seed, s))"

subsection \<open>The frame loop and \<^verbatim>\<open>process\<close>\<close>

text \<open>\<^verbatim>\<open>__init__\<close>: a new visualizer bounces up.\<close>

definition MusicVisualizer_init :: "state \<Rightarrow> state" where
  "MusicVisualizer_init s = s\<lparr>isBouncingUp := True\<rparr>"

text \<open>
  The arguments of \<^verbatim>\<open>process\<close>, under their names. \<open>latent_image\<close> is the address of
  the tensor object \<^verbatim>\<open>latent_image["samples"]\<close>. The sampler settings are part of
  \<open>common_ksampler\<close>.
\<close>

record inputs =
  prompts :: "MbmPrompt list"
  latent_mods :: "real list"
  seed :: int
  latent_image :: nat
  seed_mode :: string
  latent_mode :: string
  image_limit :: int
  latent_mod_limit :: real

text \<open>
  The local variables the loop assigns. \<open>loop_seed\<close> is the variable \<^verbatim>\<open>seed\<close>, which
  the loop overwrites; \<open>outputTensor\<close> is \<open>None\<close> until the first frame, then the stack
  of the frames' images in order.
\<close>

record locals =
  latentTensor :: nat
  loop_seed :: int
  promptPos :: comfy_prompt
  promptNeg :: comfy_prompt
  outputTensor :: "tensor list option"
  latentTensorMeans :: "scalar list"

datatype 'a control = Break (the_locals: 'a) | Continue (the_locals: 'a)

text \<open>
  One pass through the loop body at index \<open>i\<close> (lines 139 to 195). Reading
  \<^verbatim>\<open>latent_mods[i]\<close> or \<^verbatim>\<open>prompts[i + 1]\<close> out of range raises \<^verbatim>\<open>IndexError\<close>. The
  progress bar is not modelled.
\<close>

definition frame ::
  "externals \<Rightarrow> inputs \<Rightarrow> nat \<Rightarrow> nat \<Rightarrow> nat \<Rightarrow> locals \<Rightarrow> state \<Rightarrow> (py_error + locals control) \<times> state" where
  "frame X A desiredFrames promptCount i L s =
     (if length (latent_mods A) \<le> i then (Inl IndexError, s)
      else
        (case iterateLatentByMode X (latentTensor L) (latent_mode A) (latent_mod_limit A)
                (latent_mods A ! i) s of
           (lat, s1) \<Rightarrow>
             (let means = (latentTensorMeans L)[i := torch_mean (store s1 ! lat)];
                  imgTensor = common_ksampler X (loop_seed L) (promptPos L) (promptNeg L) (store s1 ! lat);
                  s2 = s1\<lparr>sampler_calls := sampler_calls s1 @
                         [\<lparr>call_seed = loop_seed L, call_positive = promptPos L,
                           call_negative = promptNeg L, call_latent = store s1 ! lat\<rparr>]\<rparr>;
                  out = (case outputTensor L of None \<Rightarrow> [imgTensor] | Some fs \<Rightarrow> fs @ [imgTensor]);
                  L1 = L\<lparr>latentTensor := lat, latentTensorMeans := means, outputTensor := Some out\<rparr>
              in if image_limit A > 0 \<and> int i \<ge> image_limit A - 1 then (Inr (Break L1), s2)
                 else
                   (case iterateSeedByMode X (loop_seed L) (seed_mode A) s2 of
                      (seed', s3) \<Rightarrow>
                        if promptCount > 1 \<and> i + 1 < desiredFrames then
                          (if length (prompts A) \<le> i + 1 then (Inl IndexError, s3)
                           else (Inr (Continue (L1\<lparr>loop_seed := seed',
                                   promptPos := buildComfyUiPrompt (positive (prompts A ! (i + 1)))
                                                  (positivePool (prompts A ! (i + 1))),
                                   promptNeg := buildComfyUiPrompt (negative (prompts A ! (i + 1)))
                                                  (negativePool (prompts A ! (i + 1)))\<rparr>)), s3))
                        else (Inr (Continue (L1\<lparr>loop_seed := seed'\<rparr>)), s3)))))"

text \<open>The \<^verbatim>\<open>for\<close> loop over the indices still to come.\<close>

fun frames ::
  "externals \<Rightarrow> inputs \<Rightarrow> nat \<Rightarrow> nat \<Rightarrow> nat list \<Rightarrow> locals \<Rightarrow> state \<Rightarrow> (py_error + locals) \<times> state" where
  "frames X A desiredFrames promptCount [] L s = (Inr L, s)"
| "frames X A desiredFrames promptCount (i # is) L s =
     (case frame X A desiredFrames promptCount i L s of
        (Inl e, s') \<Rightarrow> (Inl e, s')
      | (Inr (Break L'), s') \<Rightarrow> (Inr L', s')
      | (Inr (Continue L'), s') \<Rightarrow> frames X A desiredFrames promptCount is L' s')"

text \<open>
  \<^verbatim>\<open>process\<close> up to the end of the loop (lines 105 to 195), returning the local
  variables as the loop leaves them. \<^verbatim>\<open>np.random.default_rng(seed)\<close> builds a generator
  that is dropped at once: numpy's global generator keeps its state. \<^verbatim>\<open>prompts[0]\<close> on
  line 111 raises \<^verbatim>\<open>IndexError\<close> on an empty list.
\<close>

definition process_loop :: "externals \<Rightarrow> inputs \<Rightarrow> state \<Rightarrow> (py_error + locals) \<times> state" where
  "process_loop X A s =
     (let s0 = s\<lparr>py_random := random_seed X (seed A)\<rparr> in
      case prompts A of
        [] \<Rightarrow> (Inl IndexError, s0)
      | p0 # _ \<Rightarrow>
          (let desiredFrames = length (positive p0);
               promptCount = length (prompts A)
           in if latent_mode A = LATENT_MODE_BOUNCE \<and> latent_mod_limit A \<le> 0 then
                (Inl (ValueError ''Latent Mod Limit must be set to `>0` when using the `bounce` Latent Mode''), s0)
              else if length (prompts A) = 0 then
                (Inl (ValueError ''At least one prompt is required.''), s0)
              else
                (case clone (latent_image A) s0 of
                   (lt, s1) \<Rightarrow>
                     frames X A desiredFrames promptCount [0..<desiredFrames]
                       \<lparr>latentTensor = lt, loop_seed = seed A,
                        promptPos = buildComfyUiPrompt (positive p0) (positivePool p0),
                        promptNeg = buildComfyUiPrompt (negative p0) (negativePool p0),
                        outputTensor = None,
                        latentTensorMeans = replicate desiredFrames (Num 0)\<rparr> s1)))"

text \<open>\<^verbatim>\<open>process\<close>: the loop, then the chart of the latent means and the return value.\<close>

definition process ::
  "externals \<Rightarrow> inputs \<Rightarrow> state \<Rightarrow> (py_error + tensor list option \<times> chart list) \<times> state" where
  "process X A s =
     (case process_loop X A s of
        (Inl e, s') \<Rightarrow> (Inl e, s')
      | (Inr L, s') \<Rightarrow>
          (Inr (outputTensor L, [chartData (latentTensorMeans L) ''Latent Means'']), s'))"

subsection \<open>Stand-ins for the library and example states\<close>

text \<open>
  A stand-in for the library functions, used where a statement is evaluated on a
  concrete run: generators that count their draws, and a sampler that returns the latent
  it is given.
\<close>

definition stub :: externals where
  "stub = \<lparr>random_seed = (\<lambda>n. nat \<bar>n\<bar>),
           random_random = (\<lambda>g. (if even g then 1 / 4 else 3 / 4, Suc g)),
           random_randint = (\<lambda>lo hi g. (lo + int g mod (hi - lo + 1), Suc g)),
           np_random_normal = (\<lambda>loc scale k g. (replicate k (loc + scale * real g), Suc g)),
           common_ksampler = (\<lambda>sd pos neg t. t)\<rparr>"

definition state_of :: "tensor list \<Rightarrow> bool \<Rightarrow> state" where
  "state_of ts up =
     \<lparr>store = ts, isBouncingUp = up, py_random = 0, np_random = 0, sampler_calls = []\<rparr>"

definition prompt_of :: "nat \<Rightarrow> MbmPrompt" where
  "prompt_of n =
     \<lparr>positive = replicate n [], negative = replicate n [], positivePool = [], negativePool = []\<rparr>"

definition inputs_of :: "nat \<Rightarrow> real list \<Rightarrow> string \<Rightarrow> int \<Rightarrow> real \<Rightarrow> inputs" where
  "inputs_of n mods mode limit modLimit =
     \<lparr>prompts = [prompt_of n], latent_mods = mods, seed = 7, latent_image = 0,
      seed_mode = SEED_MODE_INCREASE, latent_mode = mode, image_limit = limit,
      latent_mod_limit = modLimit\<rparr>"

subsection \<open>Measures used in the statements\<close>

text \<open>The number of frames in the output stack.\<close>

definition frame_count :: "tensor list option \<Rightarrow> nat" where
  "frame_count out = (case out of None \<Rightarrow> 0 | Some fs \<Rightarrow> length fs)"

text \<open>
  The index at which the loop over \<open>[k..<n]\<close> stops: \<open>n\<close> without a limit, and with a
  positive limit one past the first index from \<open>k\<close> on that reaches \<open>limit - 1\<close>.
\<close>

definition stop_index :: "int \<Rightarrow> nat \<Rightarrow> nat \<Rightarrow> nat" where
  "stop_index limit k n = (if limit > 0 then min n (max (Suc k) (nat limit)) else n)"

text \<open>
  The seed and the prompts in the local variables are the ones of the last sampler
  invocation: nothing advanced them since.
\<close>

definition not_advanced :: "locals \<Rightarrow> state \<Rightarrow> bool" where
  "not_advanced L s =
     (sampler_calls s \<noteq> [] \<and> loop_seed L = call_seed (last (sampler_calls s)) \<and>
      promptPos L = call_positive (last (sampler_calls s)) \<and>
      promptNeg L = call_negative (last (sampler_calls s)))"

text \<open>
  The number of frames a run is to produce from \<open>n\<close> desired frames under an image
  limit: \<open>min n limit\<close> for a positive limit, \<open>n\<close> otherwise.
\<close>

definition expected_frames :: "nat \<Rightarrow> int \<Rightarrow> nat" where
  "expected_frames n limit = (if limit > 0 then min n (nat limit) else n)"

section \<open>Properties\<close>

subsection \<open>Evaluation of concrete runs\<close>

lemmas run_defs = process_def process_loop_def frame_def clone_def iterateLatentByMode_def
  applyFeatToLatent_def createLatent_def iterateSeedByMode_def iadd_def isub_def torch_mean_def
  buildComfyUiPrompt_def chartData_def stub_def state_of_def prompt_of_def inputs_of_def
  MusicVisualizer_init_def frame_count_def not_advanced_def expected_frames_def
  Let_def upt_rec numeral_eq_Suc

subsection \<open>What one step and one frame change\<close>

lemma iterateSeedByMode_state:
  "iterateSeedByMode X sd mode s = (sd', s') \<Longrightarrow>
     store s' = store s \<and> isBouncingUp s' = isBouncingUp s \<and> sampler_calls s' = sampler_calls s
     \<and> np_random s' = np_random s"
  by (auto simp: iterateSeedByMode_def split: if_splits prod.splits)

lemma applyFeatToLatent_state:
  "applyFeatToLatent latent method modLimit modifier s = (lat', s') \<Longrightarrow>
     lat' = latent \<and> sampler_calls s' = sampler_calls s \<and> length (store s') = length (store s)
     \<and> isBouncingUp s' = isBouncingUp s
     \<and> (N \<le> latent \<longrightarrow> take N (store s') = take N (store s))"
  by (auto simp: applyFeatToLatent_def iadd_def isub_def split: if_splits)

lemma createLatent_state:
  "createLatent X k s = (lat', s') \<Longrightarrow>
     lat' = length (store s) \<and> sampler_calls s' = sampler_calls s
     \<and> length (store s') = Suc (length (store s))
     \<and> (N \<le> length (store s) \<longrightarrow> take N (store s') = take N (store s))"
  by (auto simp: createLatent_def split: prod.splits)

lemma iterateLatentByMode_calls:
  "iterateLatentByMode X latent mode modLimit modifier s = (lat', s') \<Longrightarrow>
     sampler_calls s' = sampler_calls s"
  by (auto simp: iterateLatentByMode_def Let_def split: if_splits prod.splits
      dest!: applyFeatToLatent_state createLatent_state)

lemma iterateLatentByMode_store:
  "iterateLatentByMode X latent mode modLimit modifier s = (lat', s') \<Longrightarrow>
   N \<le> latent \<Longrightarrow> N \<le> length (store s) \<Longrightarrow>
     N \<le> lat' \<and> N \<le> length (store s') \<and> take N (store s') = take N (store s)"
  by (auto simp: iterateLatentByMode_def Let_def split: if_splits prod.splits
      dest!: applyFeatToLatent_state [where N = N] createLatent_state [where N = N])

lemma iterateLatentByMode_static:
  "iterateLatentByMode X latent LATENT_MODE_STATIC modLimit modifier s = (latent, s)"
  by (simp add: iterateLatentByMode_def)


lemma frame_Inr:
  assumes "frame X A n pc i L s = (Inr c, s')"
  shows "frame_count (outputTensor (the_locals c)) = Suc (frame_count (outputTensor L))"
    and "length (sampler_calls s') = Suc (length (sampler_calls s))"
    and "latentTensorMeans (the_locals c) =
           (latentTensorMeans L)[i := torch_mean (store s' ! latentTensor (the_locals c))]"
    and "i < length (latent_mods A)"
  using assms
  by (auto simp: frame_def Let_def frame_count_def split: if_splits prod.splits option.splits
      dest!: iterateLatentByMode_calls iterateSeedByMode_state)

lemma frame_Break:
  assumes "frame X A n pc i L s = (Inr (Break L'), s')"
  shows "not_advanced L' s'" and "image_limit A > 0" and "int i \<ge> image_limit A - 1"
  using assms
  by (auto simp: frame_def Let_def not_advanced_def split: if_splits prod.splits)

lemma frame_Continue:
  assumes "frame X A n pc i L s = (Inr (Continue L'), s')"
  shows "\<not> (image_limit A > 0 \<and> int i \<ge> image_limit A - 1)"
  using assms
  by (auto simp: frame_def Let_def split: if_splits prod.splits)

lemma frame_store:
  assumes "frame X A n pc i L s = (r, s')" and "N \<le> latentTensor L" and "N \<le> length (store s)"
  shows "take N (store s') = take N (store s)" and "N \<le> length (store s')"
    and "r = Inr c \<Longrightarrow> N \<le> latentTensor (the_locals c)"
  using assms
  by (auto simp: frame_def Let_def split: if_splits prod.splits
      dest!: iterateLatentByMode_store [where N = N] iterateSeedByMode_state)

lemma frame_succeeds:
  assumes "i < length (latent_mods A)"
    and "image_limit A > 0 \<and> int i \<ge> image_limit A - 1 \<or> pc \<le> 1 \<or> n \<le> Suc i \<or> Suc i < length (prompts A)"
  shows "\<exists>c s'. frame X A n pc i L s = (Inr c, s')"
  using assms
  by (auto simp: frame_def Let_def split: if_splits prod.splits)


lemma frames_store:
  "N \<le> latentTensor L \<Longrightarrow> N \<le> length (store s) \<Longrightarrow>
     take N (store (snd (frames X A n pc is L s))) = take N (store s)"
proof (induction "is" arbitrary: L s)
  case Nil
  then show ?case by simp
next
  case (Cons i "is")
  obtain r s1 where fr: "frame X A n pc i L s = (r, s1)"
    by (cases "frame X A n pc i L s")
  note st = frame_store [OF fr Cons.prems]
  show ?case
  proof (cases r)
    case (Inl e)
    with fr st show ?thesis by simp
  next
    case (Inr c)
    show ?thesis
    proof (cases c)
      case (Break L1)
      with fr st Inr show ?thesis by simp
    next
      case (Continue L1)
      from st(3) [of c] Inr Continue have "N \<le> latentTensor L1" by simp
      from Cons.IH [OF this st(2)] fr Inr Continue st(1) show ?thesis by simp
    qed
  qed
qed

lemma frame_Inr_call:
  assumes "frame X A n pc i L s = (Inr c, s')"
  shows "\<exists>call. sampler_calls s' = sampler_calls s @ [call]
           \<and> latentTensorMeans (the_locals c) =
               (latentTensorMeans L)[i := torch_mean (call_latent call)]"
  using assms
  by (auto simp: frame_def Let_def split: if_splits prod.splits
      dest!: iterateLatentByMode_calls iterateSeedByMode_state)

lemma frames_trajectory:
  "frames X A n pc is L s = (Inr L', s') \<Longrightarrow> distinct is \<Longrightarrow>
     \<exists>cs. length cs \<le> length is
      \<and> sampler_calls s' = sampler_calls s @ cs
      \<and> frame_count (outputTensor L') = frame_count (outputTensor L) + length cs
      \<and> length (latentTensorMeans L') = length (latentTensorMeans L)
      \<and> (\<forall>j. j \<notin> set (take (length cs) is) \<longrightarrow> latentTensorMeans L' ! j = latentTensorMeans L ! j)
      \<and> (\<forall>p. p < length cs \<and> is ! p < length (latentTensorMeans L) \<longrightarrow>
            latentTensorMeans L' ! (is ! p) = torch_mean (call_latent (cs ! p)))"
proof (induction "is" arbitrary: L s)
  case Nil
  then show ?case by simp
next
  case (Cons i "is")
  obtain r s1 where fr: "frame X A n pc i L s = (r, s1)"
    by (cases "frame X A n pc i L s")
  show ?case
  proof (cases r)
    case (Inl e)
    with fr Cons.prems show ?thesis by simp
  next
    case (Inr c)
    from fr Inr have fr': "frame X A n pc i L s = (Inr c, s1)" by simp
    note f = frame_Inr(1) [OF fr']
    from frame_Inr_call [OF fr'] obtain call where call:
      "sampler_calls s1 = sampler_calls s @ [call]"
      "latentTensorMeans (the_locals c) = (latentTensorMeans L)[i := torch_mean (call_latent call)]"
      by blast
    show ?thesis
    proof (cases c)
      case (Break L1)
      with fr' Cons.prems have "L' = L1" "s' = s1" by simp_all
      with f call Break have "length [call] \<le> length (i # is)
        \<and> sampler_calls s' = sampler_calls s @ [call]
        \<and> frame_count (outputTensor L') = frame_count (outputTensor L) + length [call]
        \<and> length (latentTensorMeans L') = length (latentTensorMeans L)
        \<and> (\<forall>j. j \<notin> set (take (length [call]) (i # is)) \<longrightarrow>
              latentTensorMeans L' ! j = latentTensorMeans L ! j)
        \<and> (\<forall>p. p < length [call] \<and> (i # is) ! p < length (latentTensorMeans L) \<longrightarrow>
              latentTensorMeans L' ! ((i # is) ! p) = torch_mean (call_latent ([call] ! p)))"
        by simp
      then show ?thesis by (rule exI [of _ "[call]"])
    next
      case (Continue L1)
      with fr' Cons.prems have run: "frames X A n pc is L1 s1 = (Inr L', s')" by simp
      from Cons.prems have d: "distinct is" and ni: "i \<notin> set is" by simp_all
      from Cons.IH [OF run d] obtain cs where cs: "length cs \<le> length is"
        "sampler_calls s' = sampler_calls s1 @ cs"
        "frame_count (outputTensor L') = frame_count (outputTensor L1) + length cs"
        "length (latentTensorMeans L') = length (latentTensorMeans L1)"
        "\<forall>j. j \<notin> set (take (length cs) is) \<longrightarrow> latentTensorMeans L' ! j = latentTensorMeans L1 ! j"
        "\<forall>p. p < length cs \<and> is ! p < length (latentTensorMeans L1) \<longrightarrow>
            latentTensorMeans L' ! (is ! p) = torch_mean (call_latent (cs ! p))"
        by blast
      from call Continue have m1:
        "latentTensorMeans L1 = (latentTensorMeans L)[i := torch_mean (call_latent call)]"
        by simp
      from f Continue have f1: "frame_count (outputTensor L1) = Suc (frame_count (outputTensor L))"
        by simp
      have ni': "i \<notin> set (take (length cs) is)"
        using ni by (auto dest: in_set_takeD)
      have w: "\<forall>p. p < length (call # cs) \<and> (i # is) ! p < length (latentTensorMeans L) \<longrightarrow>
            latentTensorMeans L' ! ((i # is) ! p) = torch_mean (call_latent ((call # cs) ! p))"
      proof (intro allI impI)
        fix p assume p: "p < length (call # cs) \<and> (i # is) ! p < length (latentTensorMeans L)"
        show "latentTensorMeans L' ! ((i # is) ! p) = torch_mean (call_latent ((call # cs) ! p))"
        proof (cases p)
          case 0
          with p cs(5) ni' m1 show ?thesis by simp
        next
          case (Suc q)
          with p cs(6) m1 show ?thesis by simp
        qed
      qed
      from cs m1 f1 call have "length (call # cs) \<le> length (i # is)
        \<and> sampler_calls s' = sampler_calls s @ (call # cs)
        \<and> frame_count (outputTensor L') = frame_count (outputTensor L) + length (call # cs)
        \<and> length (latentTensorMeans L') = length (latentTensorMeans L)
        \<and> (\<forall>j. j \<notin> set (take (length (call # cs)) (i # is)) \<longrightarrow>
              latentTensorMeans L' ! j = latentTensorMeans L ! j)"
        by simp
      with w show ?thesis by (intro exI [of _ "call # cs"]) blast
    qed
  qed
qed

lemma stop_index_Break:
  "k < n \<Longrightarrow> limit > 0 \<Longrightarrow> int k \<ge> limit - 1 \<Longrightarrow> stop_index limit k n = Suc k"
  by (auto simp: stop_index_def)

lemma stop_index_Continue:
  "k < n \<Longrightarrow> \<not> (limit > 0 \<and> int k \<ge> limit - 1) \<Longrightarrow>
     stop_index limit (Suc k) n = stop_index limit k n \<and> Suc k \<le> stop_index limit k n
     \<and> (Suc k < n \<longrightarrow> Suc (Suc k) \<le> stop_index limit k n)
     \<and> (limit > 0 \<and> nat limit \<le> n \<longrightarrow> Suc k < n)"
  by (auto simp: stop_index_def)

lemma frames_upt:
  assumes "k \<le> n"
    and "\<forall>i. k \<le> i \<and> i < stop_index (image_limit A) k n \<longrightarrow> i < length (latent_mods A)"
    and "pc \<le> 1 \<or> stop_index (image_limit A) k n \<le> length (prompts A)"
  shows "\<exists>L' s'. frames X A n pc [k..<n] L s = (Inr L', s')
           \<and> frame_count (outputTensor L') =
               frame_count (outputTensor L) + (stop_index (image_limit A) k n - k)
           \<and> length (sampler_calls s') =
               length (sampler_calls s) + (stop_index (image_limit A) k n - k)
           \<and> (image_limit A > 0 \<and> nat (image_limit A) \<le> n \<and> k < n \<longrightarrow> not_advanced L' s')"
  using assms
proof (induction "n - k" arbitrary: k L s)
  case 0
  then have "k = n" by simp
  then show ?case by (simp add: stop_index_def)
next
  case (Suc d)
  then have kn: "k < n" by simp
  then have upt: "[k..<n] = k # [Suc k..<n]" by (simp add: upt_conv_Cons)
  let ?stop = "stop_index (image_limit A) k n"
  from kn have "k < ?stop" by (auto simp: stop_index_def)
  with Suc.prems(2) have mods: "k < length (latent_mods A)" by simp
  have "image_limit A > 0 \<and> int k \<ge> image_limit A - 1 \<or> pc \<le> 1 \<or> n \<le> Suc k
          \<or> Suc k < length (prompts A)"
  proof (cases "image_limit A > 0 \<and> int k \<ge> image_limit A - 1 \<or> pc \<le> 1 \<or> n \<le> Suc k")
    case True
    then show ?thesis by blast
  next
    case False
    then have "Suc (Suc k) \<le> ?stop" using stop_index_Continue [OF kn, of "image_limit A"] by auto
    moreover from False Suc.prems(3) have "?stop \<le> length (prompts A)" by auto
    ultimately show ?thesis by simp
  qed
  from frame_succeeds [OF mods this] obtain c s1
    where fr: "frame X A n pc k L s = (Inr c, s1)" by blast
  note f = frame_Inr(1,2) [OF fr]
  show ?case
  proof (cases c)
    case (Break L1)
    from fr Break have fb: "frame X A n pc k L s = (Inr (Break L1), s1)" by simp
    from frame_Break [OF fb] kn have "?stop = Suc k" and "not_advanced L1 s1"
      by (simp_all add: stop_index_Break)
    with f fb Break upt show ?thesis by simp
  next
    case (Continue L1)
    from fr Continue have fc: "frame X A n pc k L s = (Inr (Continue L1), s1)" by simp
    note si = stop_index_Continue [OF kn frame_Continue [OF fc]]
    have d: "d = n - Suc k" using Suc.hyps(2) by simp
    have k': "Suc k \<le> n" using kn by simp
    have m': "\<forall>i. Suc k \<le> i \<and> i < stop_index (image_limit A) (Suc k) n \<longrightarrow> i < length (latent_mods A)"
      using Suc.prems(2) si by simp
    have p': "pc \<le> 1 \<or> stop_index (image_limit A) (Suc k) n \<le> length (prompts A)"
      using Suc.prems(3) si by simp
    from Suc.hyps(1) [OF d k' m' p', of L1 s1] obtain L' s'
      where r: "frames X A n pc [Suc k..<n] L1 s1 = (Inr L', s')"
        "frame_count (outputTensor L') = frame_count (outputTensor L1) + (?stop - Suc k)"
        "length (sampler_calls s') = length (sampler_calls s1) + (?stop - Suc k)"
        "image_limit A > 0 \<and> nat (image_limit A) \<le> n \<and> Suc k < n \<longrightarrow> not_advanced L' s'"
      using si by auto
    from r(4) si have na: "image_limit A > 0 \<and> nat (image_limit A) \<le> n \<and> k < n \<longrightarrow> not_advanced L' s'"
      by blast
    from f Continue have f1: "frame_count (outputTensor L1) = Suc (frame_count (outputTensor L))"
      by simp
    from si have le: "Suc k \<le> ?stop" by simp
    from r(2) f1 le
    have fc': "frame_count (outputTensor L') = frame_count (outputTensor L) + (?stop - k)"
      by arith
    from r(3) f(2) le
    have sc': "length (sampler_calls s') = length (sampler_calls s) + (?stop - k)"
      by arith
    from fc r(1) upt have "frames X A n pc [k..<n] L s = (Inr L', s')" by simp
    with na fc' sc' show ?thesis by blast
  qed
qed


lemma frames_upt_Inr:
  assumes "frames X A n pc [k..<n] L s = (Inr L', s')" and "k \<le> n"
  shows "frame_count (outputTensor L') =
           frame_count (outputTensor L) + (stop_index (image_limit A) k n - k)
       \<and> length (sampler_calls s') =
           length (sampler_calls s) + (stop_index (image_limit A) k n - k)
       \<and> (image_limit A > 0 \<and> nat (image_limit A) \<le> n \<and> k < n \<longrightarrow> not_advanced L' s')"
  using assms
proof (induction "n - k" arbitrary: k L s)
  case 0
  then have "k = n" by simp
  with "0.prems" show ?case by (simp add: stop_index_def)
next
  case (Suc d)
  then have kn: "k < n" by simp
  then have upt: "[k..<n] = k # [Suc k..<n]" by (simp add: upt_conv_Cons)
  let ?stop = "stop_index (image_limit A) k n"
  obtain r s1 where fr0: "frame X A n pc k L s = (r, s1)"
    by (cases "frame X A n pc k L s")
  with Suc.prems(1) upt obtain c where fr: "frame X A n pc k L s = (Inr c, s1)"
    by (cases r) auto
  note f = frame_Inr(1,2) [OF fr]
  show ?case
  proof (cases c)
    case (Break L1)
    from fr Break have fb: "frame X A n pc k L s = (Inr (Break L1), s1)" by simp
    from fb Suc.prems(1) upt have eq: "L' = L1" "s' = s1" by simp_all
    from frame_Break [OF fb] kn have "?stop = Suc k" and "not_advanced L1 s1"
      by (simp_all add: stop_index_Break)
    with f Break eq show ?thesis by simp
  next
    case (Continue L1)
    from fr Continue have fc: "frame X A n pc k L s = (Inr (Continue L1), s1)" by simp
    from fc Suc.prems(1) upt have run: "frames X A n pc [Suc k..<n] L1 s1 = (Inr L', s')" by simp
    note si = stop_index_Continue [OF kn frame_Continue [OF fc]]
    have d: "d = n - Suc k" using Suc.hyps(2) by simp
    have k': "Suc k \<le> n" using kn by simp
    from Suc.hyps(1) [OF d run k'] si
    have r: "frame_count (outputTensor L') = frame_count (outputTensor L1) + (?stop - Suc k)"
        "length (sampler_calls s') = length (sampler_calls s1) + (?stop - Suc k)"
        "image_limit A > 0 \<and> nat (image_limit A) \<le> n \<and> Suc k < n \<longrightarrow> not_advanced L' s'"
      by simp_all
    from r(3) si have na: "image_limit A > 0 \<and> nat (image_limit A) \<le> n \<and> k < n \<longrightarrow> not_advanced L' s'"
      by blast
    from f Continue have f1: "frame_count (outputTensor L1) = Suc (frame_count (outputTensor L))"
      by simp
    from si have le: "Suc k \<le> ?stop" by simp
    from r(1) f1 le
    have fc': "frame_count (outputTensor L') = frame_count (outputTensor L) + (?stop - k)"
      by arith
    from r(2) f(2) le
    have sc': "length (sampler_calls s') = length (sampler_calls s) + (?stop - k)"
      by arith
    from na fc' sc' show ?thesis by blast
  qed
qed

lemma snd_process: "snd (process X A s) = snd (process_loop X A s)"
  by (simp add: process_def split: prod.splits sum.splits)

lemma process_loop_enter:
  assumes "prompts A = p0 # ps"
    and "\<not> (latent_mode A = LATENT_MODE_BOUNCE \<and> latent_mod_limit A \<le> 0)"
  shows "process_loop X A s =
           frames X A (length (positive p0)) (length (prompts A)) [0..<length (positive p0)]
             \<lparr>latentTensor = length (store s), loop_seed = seed A,
              promptPos = buildComfyUiPrompt (positive p0) (positivePool p0),
              promptNeg = buildComfyUiPrompt (negative p0) (negativePool p0),
              outputTensor = None,
              latentTensorMeans = replicate (length (positive p0)) (Num 0)\<rparr>
             (s\<lparr>py_random := random_seed X (seed A),
                store := store s @ [store s ! latent_image A]\<rparr>)"
  using assms by (auto simp: process_loop_def Let_def clone_def)

lemma process_loop_reject:
  assumes "prompts A = [] \<or> latent_mode A = LATENT_MODE_BOUNCE \<and> latent_mod_limit A \<le> 0"
  shows "snd (process_loop X A s) = s\<lparr>py_random := random_seed X (seed A)\<rparr>"
  using assms by (auto simp: process_loop_def Let_def split: list.splits)

lemma process_Inr:
  assumes "process X A s = (Inr (out, charts), s')"
  shows "\<exists>L p0 ps. process_loop X A s = (Inr L, s') \<and> out = outputTensor L
           \<and> charts = [Chart (latentTensorMeans L) ''Latent Means'']
           \<and> prompts A = p0 # ps
           \<and> \<not> (latent_mode A = LATENT_MODE_BOUNCE \<and> latent_mod_limit A \<le> 0)"
proof -
  from assms obtain L where L: "process_loop X A s = (Inr L, s')" "out = outputTensor L"
    "charts = [Chart (latentTensorMeans L) ''Latent Means'']"
    by (auto simp: process_def chartData_def split: prod.splits sum.splits)
  from L(1) have "prompts A \<noteq> []"
    and "\<not> (latent_mode A = LATENT_MODE_BOUNCE \<and> latent_mod_limit A \<le> 0)"
    by (auto simp: process_loop_def Let_def split: list.splits if_splits)
  with L show ?thesis by (cases "prompts A") auto
qed


lemma frames_complete:
  assumes "prompts A = p0 # ps"
    and "\<not> (latent_mode A = LATENT_MODE_BOUNCE \<and> latent_mod_limit A \<le> 0)"
    and "expected_frames (length (positive p0)) (image_limit A) \<le> length (latent_mods A)"
    and "ps = [] \<or> expected_frames (length (positive p0)) (image_limit A) \<le> length (prompts A)"
  shows "\<exists>L s'. process_loop X A s = (Inr L, s')
           \<and> process X A s =
               (Inr (outputTensor L, [chartData (latentTensorMeans L) ''Latent Means'']), s')
           \<and> frame_count (outputTensor L) = expected_frames (length (positive p0)) (image_limit A)
           \<and> length (sampler_calls s') =
               length (sampler_calls s) + expected_frames (length (positive p0)) (image_limit A)
           \<and> (image_limit A > 0 \<and> nat (image_limit A) \<le> length (positive p0)
                \<longrightarrow> not_advanced L s')"
proof -
  let ?n = "length (positive p0)"
  have stop: "stop_index (image_limit A) 0 ?n = expected_frames ?n (image_limit A)"
    by (auto simp: stop_index_def expected_frames_def)
  have m: "\<forall>i. 0 \<le> i \<and> i < stop_index (image_limit A) 0 ?n \<longrightarrow> i < length (latent_mods A)"
    using assms(3) stop by simp
  have p: "length (prompts A) \<le> 1 \<or> stop_index (image_limit A) 0 ?n \<le> length (prompts A)"
    using assms(1,4) stop by auto
  have pos: "image_limit A > 0 \<and> nat (image_limit A) \<le> ?n \<longrightarrow> 0 < ?n" by auto
  from frames_upt [OF _ m p, of X
      "\<lparr>latentTensor = length (store s), loop_seed = seed A,
        promptPos = buildComfyUiPrompt (positive p0) (positivePool p0),
        promptNeg = buildComfyUiPrompt (negative p0) (negativePool p0),
        outputTensor = None, latentTensorMeans = replicate ?n (Num 0)\<rparr>"
      "s\<lparr>py_random := random_seed X (seed A), store := store s @ [store s ! latent_image A]\<rparr>"]
  obtain L s' where r: "process_loop X A s = (Inr L, s')"
    "frame_count (outputTensor L) = expected_frames ?n (image_limit A)"
    "length (sampler_calls s') = length (sampler_calls s) + expected_frames ?n (image_limit A)"
    "image_limit A > 0 \<and> nat (image_limit A) \<le> ?n \<longrightarrow> not_advanced L s'"
    unfolding process_loop_enter [OF assms(1,2)] stop using pos
    by (auto simp: frame_count_def)
  from r(1) have "process X A s =
      (Inr (outputTensor L, [chartData (latentTensorMeans L) ''Latent Means'']), s')"
    by (simp add: process_def)
  with r show ?thesis by blast
qed

lemma frame_static:
  assumes "latent_mode A = LATENT_MODE_STATIC" and "frame X A n pc i L s = (r, s')"
  shows "store s' = store s"
    and "\<exists>cs. sampler_calls s' = sampler_calls s @ cs
           \<and> (\<forall>c\<in>set cs. call_latent c = store s ! latentTensor L)"
    and "r = Inr c \<Longrightarrow> latentTensor (the_locals c) = latentTensor L
           \<and> latentTensorMeans (the_locals c) =
               (latentTensorMeans L)[i := torch_mean (store s ! latentTensor L)]
           \<and> frame_count (outputTensor (the_locals c)) = Suc (frame_count (outputTensor L))"
  using assms
  by (auto simp: frame_def Let_def iterateLatentByMode_static frame_count_def
      split: if_splits prod.splits option.splits dest!: iterateSeedByMode_state)

lemma frames_static:
  assumes "latent_mode A = LATENT_MODE_STATIC"
  shows "store (snd (frames X A n pc is L s)) = store s
         \<and> (\<exists>cs. sampler_calls (snd (frames X A n pc is L s)) = sampler_calls s @ cs
               \<and> (\<forall>c\<in>set cs. call_latent c = store s ! latentTensor L))"
proof (induction "is" arbitrary: L s)
  case Nil
  then show ?case by simp
next
  case (Cons i "is")
  obtain r s1 where fr: "frame X A n pc i L s = (r, s1)"
    by (cases "frame X A n pc i L s")
  note f = frame_static [OF assms fr]
  from f(2) obtain cs where cs: "sampler_calls s1 = sampler_calls s @ cs"
    "\<forall>c\<in>set cs. call_latent c = store s ! latentTensor L" by blast
  show ?case
  proof (cases r)
    case (Inl e)
    with fr f(1) cs show ?thesis by simp
  next
    case (Inr c)
    show ?thesis
    proof (cases c)
      case (Break L1)
      with fr Inr f(1) cs show ?thesis by simp
    next
      case (Continue L1)
      from f(3) [of c] Inr Continue have lt: "latentTensor L1 = latentTensor L" by simp
      from Cons.IH [of L1 s1] obtain cs' where cs':
        "store (snd (frames X A n pc is L1 s1)) = store s1"
        "sampler_calls (snd (frames X A n pc is L1 s1)) = sampler_calls s1 @ cs'"
        "\<forall>c\<in>set cs'. call_latent c = store s1 ! latentTensor L1" by blast
      from cs cs' lt f(1)
      have "sampler_calls (snd (frames X A n pc is L1 s1)) = sampler_calls s @ (cs @ cs')
          \<and> (\<forall>c\<in>set (cs @ cs'). call_latent c = store s ! latentTensor L)"
        by auto
      with fr Inr Continue cs'(1) f(1) show ?thesis
        by (simp del: append_assoc)
    qed
  qed
qed

lemma frames_static_means:
  assumes "latent_mode A = LATENT_MODE_STATIC"
  shows "frames X A n pc is L s = (Inr L', s') \<Longrightarrow>
     \<exists>m\<le>length is.
        frame_count (outputTensor L') = frame_count (outputTensor L) + m
      \<and> length (latentTensorMeans L') = length (latentTensorMeans L)
      \<and> (\<forall>j. j \<notin> set (take m is) \<longrightarrow> latentTensorMeans L' ! j = latentTensorMeans L ! j)
      \<and> (\<forall>j. j \<in> set (take m is) \<and> j < length (latentTensorMeans L) \<longrightarrow>
            latentTensorMeans L' ! j = torch_mean (store s ! latentTensor L))"
proof (induction "is" arbitrary: L s)
  case Nil
  then show ?case by simp
next
  case (Cons i "is")
  obtain r s1 where fr: "frame X A n pc i L s = (r, s1)"
    by (cases "frame X A n pc i L s")
  show ?case
  proof (cases r)
    case (Inl e)
    with fr Cons.prems show ?thesis by simp
  next
    case (Inr c)
    note f = frame_static(1) [OF assms fr] frame_static(3) [OF assms fr Inr]
    show ?thesis
    proof (cases c)
      case (Break L1)
      with fr Inr Cons.prems have "L' = L1" by simp
      with f Break have "frame_count (outputTensor L') = frame_count (outputTensor L) + 1
        \<and> length (latentTensorMeans L') = length (latentTensorMeans L)
        \<and> (\<forall>j. j \<notin> set (take 1 (i # is)) \<longrightarrow> latentTensorMeans L' ! j = latentTensorMeans L ! j)
        \<and> (\<forall>j. j \<in> set (take 1 (i # is)) \<and> j < length (latentTensorMeans L) \<longrightarrow>
            latentTensorMeans L' ! j = torch_mean (store s ! latentTensor L))"
        by simp
      then show ?thesis by (intro exI [of _ 1]) simp
    next
      case (Continue L1)
      with fr Inr Cons.prems have "frames X A n pc is L1 s1 = (Inr L', s')" by simp
      from Cons.IH [OF this] obtain m where m: "m \<le> length is"
        "frame_count (outputTensor L') = frame_count (outputTensor L1) + m"
        "length (latentTensorMeans L') = length (latentTensorMeans L1)"
        "\<forall>j. j \<notin> set (take m is) \<longrightarrow> latentTensorMeans L' ! j = latentTensorMeans L1 ! j"
        "\<forall>j. j \<in> set (take m is) \<and> j < length (latentTensorMeans L1) \<longrightarrow>
            latentTensorMeans L' ! j = torch_mean (store s1 ! latentTensor L1)"
        by blast
      from f Continue have L1: "latentTensor L1 = latentTensor L" "store s1 = store s"
        "latentTensorMeans L1 = (latentTensorMeans L)[i := torch_mean (store s ! latentTensor L)]"
        "frame_count (outputTensor L1) = Suc (frame_count (outputTensor L))"
        by simp_all
      have w: "\<forall>j. j \<in> set (take (Suc m) (i # is)) \<and> j < length (latentTensorMeans L) \<longrightarrow>
            latentTensorMeans L' ! j = torch_mean (store s ! latentTensor L)"
      proof (intro allI impI)
        fix j assume j: "j \<in> set (take (Suc m) (i # is)) \<and> j < length (latentTensorMeans L)"
        show "latentTensorMeans L' ! j = torch_mean (store s ! latentTensor L)"
        proof (cases "j \<in> set (take m is)")
          case True
          with m(5) j L1 show ?thesis by simp
        next
          case False
          with j have "j = i" by simp
          with False m(4) j L1 show ?thesis by simp
        qed
      qed
      from m L1 have "Suc m \<le> length (i # is)
        \<and> frame_count (outputTensor L') = frame_count (outputTensor L) + Suc m
        \<and> length (latentTensorMeans L') = length (latentTensorMeans L)
        \<and> (\<forall>j. j \<notin> set (take (Suc m) (i # is)) \<longrightarrow> latentTensorMeans L' ! j = latentTensorMeans L ! j)"
        by simp
      with w show ?thesis by (intro exI [of _ "Suc m"]) blast
    qed
  qed
qed

subsection \<open>Bounded elementwise add and subtract\<close>

text \<open>
  C1. \<^verbatim>\<open>_applyFeatToLatent\<close> with method \<^verbatim>\<open>add\<close> returns the latent object untouched when
  \<open>modLimit > 0\<close> and \<open>mean(latent) + modifier > modLimit\<close>, and otherwise adds the
  modifier to every element; with method \<^verbatim>\<open>subtract\<close> it returns the latent untouched
  when \<open>modLimit > 0\<close> and \<open>mean(latent) - modifier < - modLimit\<close>, and otherwise
  subtracts the modifier from every element. With \<open>modLimit \<le> 0\<close> there is no bound
  check: the modifier is always applied. Nothing else of the state changes.
\<close>

theorem applyFeatToLatent_bounded:
  "applyFeatToLatent latent FEAT_APPLY_METHOD_ADD modLimit modifier s =
     (if modLimit > 0 \<and> scalar_gt (scalar_add (torch_mean (store s ! latent)) modifier) modLimit
      then (latent, s)
      else (latent, s\<lparr>store := (store s)[latent := map (\<lambda>x. x + modifier) (store s ! latent)]\<rparr>))
   \<and> applyFeatToLatent latent FEAT_APPLY_METHOD_SUBTRACT modLimit modifier s =
     (if modLimit > 0 \<and> scalar_lt (scalar_sub (torch_mean (store s ! latent)) modifier) (- modLimit)
      then (latent, s)
      else (latent, s\<lparr>store := (store s)[latent := map (\<lambda>x. x - modifier) (store s ! latent)]\<rparr>))
   \<and> (modLimit \<le> 0 \<longrightarrow>
        applyFeatToLatent latent FEAT_APPLY_METHOD_ADD modLimit modifier s =
          (latent, s\<lparr>store := (store s)[latent := map (\<lambda>x. x + modifier) (store s ! latent)]\<rparr>)
      \<and> applyFeatToLatent latent FEAT_APPLY_METHOD_SUBTRACT modLimit modifier s =
          (latent, s\<lparr>store := (store s)[latent := map (\<lambda>x. x - modifier) (store s ! latent)]\<rparr>))"
  by (simp add: applyFeatToLatent_def iadd_def isub_def)

theorem applyFeatToLatent_bounded_witness:
  "applyFeatToLatent 0 FEAT_APPLY_METHOD_ADD 0 1 (state_of [[5, 7]] True) = (0, state_of [[6, 8]] True)
   \<and> applyFeatToLatent 0 FEAT_APPLY_METHOD_SUBTRACT 0 1 (state_of [[5, 7]] True) = (0, state_of [[4, 6]] True)
   \<and> applyFeatToLatent 0 FEAT_APPLY_METHOD_ADD 5 1 (state_of [[5, 5]] True) = (0, state_of [[5, 5]] True)
   \<and> applyFeatToLatent 0 FEAT_APPLY_METHOD_ADD 5 1 (state_of [[3, 5]] True) = (0, state_of [[4, 6]] True)"
  using applyFeatToLatent_bounded [of 0 0 1 "state_of [[5, 7]] True"]
    applyFeatToLatent_bounded [of 0 5 1 "state_of [[5, 5]] True"]
    applyFeatToLatent_bounded [of 0 5 1 "state_of [[3, 5]] True"]
  by (simp add: state_of_def torch_mean_def)

text \<open>
  The run of the specification's example: mode \<^verbatim>\<open>increase\<close>, limit 5, modifier 1 and a
  starting mean of 0. The means climb to 5 and stay there.
\<close>

lemma increase_freezes_at_limit:
  "fst (process stub (inputs_of 7 [1, 1, 1, 1, 1, 1, 1] LATENT_MODE_INCREASE (- 1) 5) (state_of [[0, 0]] True)) =
     Inr (Some [[1, 1], [2, 2], [3, 3], [4, 4], [5, 5], [5, 5], [5, 5]],
          [Chart [Num 1, Num 2, Num 3, Num 4, Num 5, Num 5, Num 5] ''Latent Means''])"
  by (simp add: run_defs)

subsection \<open>The bounce step\<close>

text \<open>
  C2. A step in \<^verbatim>\<open>bounce\<close> mode with \<open>modLimit > 0\<close> computes the candidate
  \<open>mean(latent) + modifier\<close> when bouncing up and \<open>mean(latent) - modifier\<close> when bouncing
  down. If \<open>- modLimit \<le> candidate \<le> modLimit\<close> it applies the current direction and
  leaves the flag; otherwise it applies the opposite direction with the flag negated.
  With \<open>modLimit \<le> 0\<close> it applies add. The bound is inclusive: a candidate equal to
  \<open>modLimit\<close> is added and does not flip.
\<close>

theorem bounce_step:
  "iterateLatentByMode X latent LATENT_MODE_BOUNCE modLimit modifier s =
     (if modLimit > 0 then
        (if scalar_between (- modLimit)
              (if isBouncingUp s then scalar_add (torch_mean (store s ! latent)) modifier
               else scalar_sub (torch_mean (store s ! latent)) modifier) modLimit
         then applyFeatToLatent latent
                (if isBouncingUp s then FEAT_APPLY_METHOD_ADD else FEAT_APPLY_METHOD_SUBTRACT)
                modLimit modifier s
         else applyFeatToLatent latent
                (if isBouncingUp s then FEAT_APPLY_METHOD_SUBTRACT else FEAT_APPLY_METHOD_ADD)
                modLimit modifier (s\<lparr>isBouncingUp := \<not> isBouncingUp s\<rparr>))
      else applyFeatToLatent latent FEAT_APPLY_METHOD_ADD modLimit modifier s)
   \<and> isBouncingUp (snd (iterateLatentByMode X latent LATENT_MODE_BOUNCE modLimit modifier s)) =
     (if modLimit > 0 \<and>
         \<not> scalar_between (- modLimit)
              (if isBouncingUp s then scalar_add (torch_mean (store s ! latent)) modifier
               else scalar_sub (torch_mean (store s ! latent)) modifier) modLimit
      then \<not> isBouncingUp s else isBouncingUp s)
   \<and> (modLimit > 0 \<and> isBouncingUp s \<and>
        scalar_add (torch_mean (store s ! latent)) modifier = Num modLimit \<longrightarrow>
        iterateLatentByMode X latent LATENT_MODE_BOUNCE modLimit modifier s =
          (latent, s\<lparr>store := (store s)[latent := map (\<lambda>x. x + modifier) (store s ! latent)]\<rparr>))"
  by (simp add: iterateLatentByMode_def Let_def applyFeatToLatent_def iadd_def isub_def)

theorem bounce_step_witness:
  "iterateLatentByMode stub 0 LATENT_MODE_BOUNCE 3 1 (state_of [[2, 2]] True) = (0, state_of [[3, 3]] True)
   \<and> iterateLatentByMode stub 0 LATENT_MODE_BOUNCE 3 1 (state_of [[3, 3]] True) = (0, state_of [[2, 2]] False)"
  using bounce_step [of stub 0 3 1 "state_of [[2, 2]] True"]
    bounce_step [of stub 0 3 1 "state_of [[3, 3]] True"]
  by (simp add: state_of_def torch_mean_def applyFeatToLatent_def iadd_def isub_def)

text \<open>
  The run of the specification's example: mode \<^verbatim>\<open>bounce\<close>, limit 3, modifier 1 and a
  starting mean of 0. The means reach 3, turn, reach -3 and turn again.
\<close>

lemma bounce_turns_at_limit:
  "fst (process stub (inputs_of 10 [1, 1, 1, 1, 1, 1, 1, 1, 1, 1] LATENT_MODE_BOUNCE (- 1) 3)
          (state_of [[0, 0]] True)) =
     Inr (Some [[1, 1], [2, 2], [3, 3], [2, 2], [1, 1], [0, 0], [- 1, - 1], [- 2, - 2], [- 3, - 3], [- 2, - 2]],
          [Chart [Num 1, Num 2, Num 3, Num 2, Num 1, Num 0, Num (- 1), Num (- 2), Num (- 3), Num (- 2)]
             ''Latent Means''])"
  by (simp add: run_defs)

subsection \<open>Runs under a fixed seed\<close>

text \<open>
  C3. Two runs of \<^verbatim>\<open>process\<close> with the same inputs and the same seed are to give the same
  output. \<^verbatim>\<open>random.seed(seed)\<close> re-seeds Python's generator, but
  \<^verbatim>\<open>np.random.default_rng(seed)\<close> only builds a generator that is dropped: the global numpy
  generator, from which \<^verbatim>\<open>_createLatent\<close> draws, keeps the state the previous run left.
  In \<^verbatim>\<open>guassian\<close> mode a second run with the same inputs, here right after the first,
  produces other latents, other frames and another trajectory.
\<close>

theorem gaussian_runs_differ:
  "fst (process stub (inputs_of 1 [1] LATENT_MODE_GAUSS (- 1) 5) (state_of [[0, 0]] True)) =
     Inr (Some [[3, 3]], [Chart [Num 3] ''Latent Means''])
   \<and> fst (process stub (inputs_of 1 [1] LATENT_MODE_GAUSS (- 1) 5)
            (snd (process stub (inputs_of 1 [1] LATENT_MODE_GAUSS (- 1) 5) (state_of [[0, 0]] True)))) =
     Inr (Some [[11 / 2, 11 / 2]], [Chart [Num (11 / 2)] ''Latent Means''])"
  by (simp add: run_defs)

subsection \<open>The number of frames\<close>

text \<open>
  C4, as stated: every run produces \<open>len(prompts[0].positive)\<close> frames when
  \<open>image_limit \<le> 0\<close>. With two prompts and three desired frames the second pass of the
  loop reads \<^verbatim>\<open>prompts[2]\<close> on line 189 and raises \<^verbatim>\<open>IndexError\<close>: the sampler was
  invoked twice, not three times, and nothing is returned.
\<close>

theorem two_prompts_three_frames:
  "expected_frames (length (positive (hd (prompts
      ((inputs_of 3 [1, 1, 1] LATENT_MODE_INCREASE (- 1) 5)\<lparr>prompts := [prompt_of 3, prompt_of 3]\<rparr>))))) (- 1) = 3
   \<and> fst (process stub
        ((inputs_of 3 [1, 1, 1] LATENT_MODE_INCREASE (- 1) 5)\<lparr>prompts := [prompt_of 3, prompt_of 3]\<rparr>)
        (state_of [[0, 0]] True)) = Inl IndexError
   \<and> length (sampler_calls (snd (process stub
        ((inputs_of 3 [1, 1, 1] LATENT_MODE_INCREASE (- 1) 5)\<lparr>prompts := [prompt_of 3, prompt_of 3]\<rparr>)
        (state_of [[0, 0]] True)))) = 2"
  by (simp add: run_defs)

text \<open>
  C4, amended. Every run that returns has produced \<open>len(prompts[0].positive)\<close> frames
  when \<open>image_limit \<le> 0\<close> and \<open>min(len(prompts[0].positive), image_limit)\<close> frames when
  \<open>image_limit > 0\<close>: that many slices in the output stack and that many sampler
  invocations; and when \<open>image_limit\<close> cuts the run, the seed and the prompts are not
  advanced after the last frame: they are the ones of the last sampler invocation. A run
  returns when the prompts are not empty, bounce mode has a positive limit, the modifiers
  reach as far as the frames to produce and the prompt list is a single prompt or reaches
  as far.
\<close>

theorem frames_produced:
  "(process_loop X A s = (Inr L, s') \<longrightarrow>
      process X A s =
        (Inr (outputTensor L, [chartData (latentTensorMeans L) ''Latent Means'']), s')
      \<and> frame_count (outputTensor L) =
          expected_frames (length (positive (hd (prompts A)))) (image_limit A)
      \<and> length (sampler_calls s') =
          length (sampler_calls s)
            + expected_frames (length (positive (hd (prompts A)))) (image_limit A)
      \<and> (image_limit A > 0 \<and> nat (image_limit A) \<le> length (positive (hd (prompts A)))
            \<longrightarrow> not_advanced L s'))
   \<and> (prompts A \<noteq> []
        \<and> \<not> (latent_mode A = LATENT_MODE_BOUNCE \<and> latent_mod_limit A \<le> 0)
        \<and> expected_frames (length (positive (hd (prompts A)))) (image_limit A)
             \<le> length (latent_mods A)
        \<and> (length (prompts A) = 1
             \<or> expected_frames (length (positive (hd (prompts A)))) (image_limit A)
                  \<le> length (prompts A))
        \<longrightarrow> (\<exists>L1 s1. process_loop X A s = (Inr L1, s1)))"
proof -
  have returns: "process_loop X A s = (Inr L, s') \<longrightarrow>
      process X A s =
        (Inr (outputTensor L, [chartData (latentTensorMeans L) ''Latent Means'']), s')
      \<and> frame_count (outputTensor L) =
          expected_frames (length (positive (hd (prompts A)))) (image_limit A)
      \<and> length (sampler_calls s') =
          length (sampler_calls s)
            + expected_frames (length (positive (hd (prompts A)))) (image_limit A)
      \<and> (image_limit A > 0 \<and> nat (image_limit A) \<le> length (positive (hd (prompts A)))
            \<longrightarrow> not_advanced L s')"
  proof
    assume run: "process_loop X A s = (Inr L, s')"
    then have pr: "process X A s =
        (Inr (outputTensor L, [chartData (latentTensorMeans L) ''Latent Means'']), s')"
      by (simp add: process_def)
    from process_Inr [OF pr] obtain p0 ps where p: "prompts A = p0 # ps"
      and nb: "\<not> (latent_mode A = LATENT_MODE_BOUNCE \<and> latent_mod_limit A \<le> 0)"
      by blast
    let ?n = "length (positive p0)"
    let ?L0 = "\<lparr>latentTensor = length (store s), loop_seed = seed A,
        promptPos = buildComfyUiPrompt (positive p0) (positivePool p0),
        promptNeg = buildComfyUiPrompt (negative p0) (negativePool p0),
        outputTensor = None, latentTensorMeans = replicate ?n (Num 0)\<rparr>"
    let ?s0 = "s\<lparr>py_random := random_seed X (seed A), store := store s @ [store s ! latent_image A]\<rparr>"
    have stop: "stop_index (image_limit A) 0 ?n = expected_frames ?n (image_limit A)"
      by (auto simp: stop_index_def expected_frames_def)
    from run have fr: "frames X A ?n (length (prompts A)) [0..<?n] ?L0 ?s0 = (Inr L, s')"
      unfolding process_loop_enter [OF p nb] .
    from frames_upt_Inr [OF fr] stop
    have c: "frame_count (outputTensor L) = frame_count (outputTensor ?L0) + expected_frames ?n (image_limit A)"
      "length (sampler_calls s') = length (sampler_calls ?s0) + expected_frames ?n (image_limit A)"
      "image_limit A > 0 \<and> nat (image_limit A) \<le> ?n \<and> 0 < ?n \<longrightarrow> not_advanced L s'"
      by simp_all
    have pos: "image_limit A > 0 \<and> nat (image_limit A) \<le> ?n \<longrightarrow> 0 < ?n" by auto
    from c(1) have c1: "frame_count (outputTensor L) = expected_frames ?n (image_limit A)"
      by (simp add: frame_count_def)
    from c(2) have c2: "length (sampler_calls s') =
        length (sampler_calls s) + expected_frames ?n (image_limit A)" by simp
    from c(3) pos have c3: "image_limit A > 0 \<and> nat (image_limit A) \<le> ?n \<longrightarrow> not_advanced L s'"
      by blast
    from pr c1 c2 c3 p show "process X A s =
        (Inr (outputTensor L, [chartData (latentTensorMeans L) ''Latent Means'']), s')
      \<and> frame_count (outputTensor L) =
          expected_frames (length (positive (hd (prompts A)))) (image_limit A)
      \<and> length (sampler_calls s') =
          length (sampler_calls s)
            + expected_frames (length (positive (hd (prompts A)))) (image_limit A)
      \<and> (image_limit A > 0 \<and> nat (image_limit A) \<le> length (positive (hd (prompts A)))
            \<longrightarrow> not_advanced L s')"
      by simp
  qed
  have completes: "prompts A \<noteq> []
        \<and> \<not> (latent_mode A = LATENT_MODE_BOUNCE \<and> latent_mod_limit A \<le> 0)
        \<and> expected_frames (length (positive (hd (prompts A)))) (image_limit A)
             \<le> length (latent_mods A)
        \<and> (length (prompts A) = 1
             \<or> expected_frames (length (positive (hd (prompts A)))) (image_limit A)
                  \<le> length (prompts A))
        \<longrightarrow> (\<exists>L1 s1. process_loop X A s = (Inr L1, s1))"
  proof
    assume h: "prompts A \<noteq> []
        \<and> \<not> (latent_mode A = LATENT_MODE_BOUNCE \<and> latent_mod_limit A \<le> 0)
        \<and> expected_frames (length (positive (hd (prompts A)))) (image_limit A)
             \<le> length (latent_mods A)
        \<and> (length (prompts A) = 1
             \<or> expected_frames (length (positive (hd (prompts A)))) (image_limit A)
                  \<le> length (prompts A))"
    then obtain p0 ps where p: "prompts A = p0 # ps" by (cases "prompts A") auto
    from h have nb: "\<not> (latent_mode A = LATENT_MODE_BOUNCE \<and> latent_mod_limit A \<le> 0)" by simp
    from h p have m: "expected_frames (length (positive p0)) (image_limit A) \<le> length (latent_mods A)"
      by simp
    from h p have q: "ps = [] \<or> expected_frames (length (positive p0)) (image_limit A) \<le> length (prompts A)"
      by auto
    from frames_complete [OF p nb m q, of X s] show "\<exists>L1 s1. process_loop X A s = (Inr L1, s1)"
      by blast
  qed
  from returns completes show ?thesis by blast
qed

theorem frames_produced_witness:
  "(\<exists>L s'. process_loop stub (inputs_of 10 [1, 1, 1] LATENT_MODE_INCREASE 3 5) (state_of [[0, 0]] True)
       = (Inr L, s'))
   \<and> frame_count (outputTensor (projr (fst (process_loop stub
         (inputs_of 10 [1, 1, 1] LATENT_MODE_INCREASE 3 5) (state_of [[0, 0]] True))))) = 3
   \<and> length (sampler_calls (snd (process_loop stub
         (inputs_of 10 [1, 1, 1] LATENT_MODE_INCREASE 3 5) (state_of [[0, 0]] True)))) = 3
   \<and> not_advanced
         (projr (fst (process_loop stub (inputs_of 10 [1, 1, 1] LATENT_MODE_INCREASE 3 5)
            (state_of [[0, 0]] True))))
         (snd (process_loop stub (inputs_of 10 [1, 1, 1] LATENT_MODE_INCREASE 3 5)
            (state_of [[0, 0]] True)))"
proof -
  let ?A = "inputs_of 10 [1, 1, 1] LATENT_MODE_INCREASE 3 5"
  let ?S = "state_of [[0, 0]] True"
  have e: "expected_frames (length (positive (hd (prompts ?A)))) (image_limit ?A) = 3"
    by (simp add: inputs_of_def prompt_of_def expected_frames_def)
  have h: "prompts ?A \<noteq> []
        \<and> \<not> (latent_mode ?A = LATENT_MODE_BOUNCE \<and> latent_mod_limit ?A \<le> 0)
        \<and> expected_frames (length (positive (hd (prompts ?A)))) (image_limit ?A)
             \<le> length (latent_mods ?A)
        \<and> (length (prompts ?A) = 1
             \<or> expected_frames (length (positive (hd (prompts ?A)))) (image_limit ?A)
                  \<le> length (prompts ?A))"
    unfolding e by (simp add: inputs_of_def)
  have t: "image_limit ?A > 0 \<and> nat (image_limit ?A) \<le> length (positive (hd (prompts ?A)))"
    by (simp add: inputs_of_def prompt_of_def)
  from frames_produced [of stub ?A ?S] h
  have ex: "\<exists>L s'. process_loop stub ?A ?S = (Inr L, s')" by blast
  then obtain L s' where run: "process_loop stub ?A ?S = (Inr L, s')" by blast
  from frames_produced [of stub ?A ?S L s'] run e t
  have "frame_count (outputTensor L) = 3" "length (sampler_calls s') = length (sampler_calls ?S) + 3"
    "not_advanced L s'"
    by simp_all
  with run ex show ?thesis by (simp add: state_of_def)
qed

subsection \<open>The scope of the bounce direction\<close>

text \<open>
  C5. Every run is to begin bouncing up, with no bounce state passing from one run to
  the next. The flag is set in \<^verbatim>\<open>__init__\<close> only and \<^verbatim>\<open>process\<close> never resets it: after a
  first run in bounce mode that ends bouncing down, a second run with the same arguments
  on the same visualizer starts bouncing down, decreases first, against the comment on
  line 253 (increase to the limit, then decrease), and returns other frames.
\<close>

theorem bounce_flag_persists:
  "isBouncingUp (MusicVisualizer_init (state_of [[0, 0]] False))
   \<and> fst (process stub (inputs_of 3 [1, 1, 1] LATENT_MODE_BOUNCE (- 1) 2)
            (MusicVisualizer_init (state_of [[0, 0]] False))) =
     Inr (Some [[1, 1], [2, 2], [1, 1]], [Chart [Num 1, Num 2, Num 1] ''Latent Means''])
   \<and> \<not> isBouncingUp (snd (process stub (inputs_of 3 [1, 1, 1] LATENT_MODE_BOUNCE (- 1) 2)
            (MusicVisualizer_init (state_of [[0, 0]] False))))
   \<and> fst (process stub (inputs_of 3 [1, 1, 1] LATENT_MODE_BOUNCE (- 1) 2)
            (snd (process stub (inputs_of 3 [1, 1, 1] LATENT_MODE_BOUNCE (- 1) 2)
                   (MusicVisualizer_init (state_of [[0, 0]] False))))) =
     Inr (Some [[- 1, - 1], [- 2, - 2], [- 1, - 1]], [Chart [Num (- 1), Num (- 2), Num (- 1)] ''Latent Means''])"
  by (simp add: run_defs)

subsection \<open>Validation\<close>

text \<open>
  C6. On an empty prompt sequence \<^verbatim>\<open>process\<close> is to raise the validation error
  \<^verbatim>\<open>At least one prompt is required.\<close> The code reads \<^verbatim>\<open>prompts[0]\<close> on line 111, before
  the check of line 120: what is raised on an empty list is \<^verbatim>\<open>IndexError\<close>, with only the
  Python generator re-seeded (no frame, no sampler invocation).
\<close>

theorem empty_prompts_IndexError:
  "process X (A\<lparr>prompts := []\<rparr>) s = (Inl IndexError, s\<lparr>py_random := random_seed X (seed A)\<rparr>)"
  by (simp add: process_def process_loop_def)

text \<open>
  C7. With \<^verbatim>\<open>latent_mode = bounce\<close>, \<open>latent_mod_limit \<le> 0\<close> and at least one prompt,
  \<^verbatim>\<open>process\<close> raises the \<^verbatim>\<open>ValueError\<close> of line 117 before the loop: the sampler is not
  invoked, no tensor is allocated or changed and the bounce flag is as it was; the state
  differs from the one at the call only in the re-seeded Python generator.
\<close>

theorem bounce_without_limit_rejected:
  assumes "prompts A \<noteq> []" and "latent_mode A = LATENT_MODE_BOUNCE" and "latent_mod_limit A \<le> 0"
  shows "process X A s =
           (Inl (ValueError ''Latent Mod Limit must be set to `>0` when using the `bounce` Latent Mode''),
            s\<lparr>py_random := random_seed X (seed A)\<rparr>)
         \<and> sampler_calls (snd (process X A s)) = sampler_calls s
         \<and> store (snd (process X A s)) = store s
         \<and> isBouncingUp (snd (process X A s)) = isBouncingUp s"
  using assms by (cases "prompts A") (simp_all add: process_def process_loop_def)

theorem bounce_without_limit_rejected_witness:
  "process stub (inputs_of 3 [1, 1, 1] LATENT_MODE_BOUNCE (- 1) 0) (state_of [[0, 0]] True) =
     (Inl (ValueError ''Latent Mod Limit must be set to `>0` when using the `bounce` Latent Mode''),
      (state_of [[0, 0]] True)\<lparr>py_random := 7\<rparr>)"
  using bounce_without_limit_rejected [of "inputs_of 3 [1, 1, 1] LATENT_MODE_BOUNCE (- 1) 0" stub
      "state_of [[0, 0]] True"]
  by (simp add: inputs_of_def stub_def prompt_of_def)

subsection \<open>Static mode\<close>

text \<open>
  C8, as stated: in \<^verbatim>\<open>static\<close> mode the recorded trajectory is constant, every entry equal
  to the mean of the starting latent. The trajectory is allocated as \<open>desiredFrames\<close>
  zeros and written only for the frames produced: with two desired frames, an image
  limit of one and a starting latent of mean 1, the series handed to the chart is 1, 0.
\<close>

theorem static_trajectory_not_constant:
  "latent_mode (inputs_of 2 [1, 1] LATENT_MODE_STATIC 1 5) = LATENT_MODE_STATIC
   \<and> torch_mean (store (state_of [[1, 1]] True) ! latent_image (inputs_of 2 [1, 1] LATENT_MODE_STATIC 1 5)) = Num 1
   \<and> fst (process stub (inputs_of 2 [1, 1] LATENT_MODE_STATIC 1 5) (state_of [[1, 1]] True)) =
       Inr (Some [[1, 1]], [Chart [Num 1, Num 0] ''Latent Means''])"
  by (simp add: run_defs)

text \<open>
  C8, amended. In \<^verbatim>\<open>static\<close> mode every step of the latent recurrence returns its input
  latent unchanged, whatever the modifier; every sampler invocation of the run receives
  the elements of the starting latent; and when the run returns, the trajectory holds
  the mean of the starting latent at the entry of every produced frame and its initial
  0 at the entries of the frames the image limit cut off.
\<close>

theorem static_run:
  assumes "latent_mode A = LATENT_MODE_STATIC"
  shows "iterateLatentByMode X latent (latent_mode A) modLimit modifier s = (latent, s)
     \<and> (\<exists>cs. sampler_calls (snd (process X A s)) = sampler_calls s @ cs
           \<and> (\<forall>c\<in>set cs. call_latent c = store s ! latent_image A))
     \<and> (\<forall>out charts s'. process X A s = (Inr (out, charts), s') \<longrightarrow>
           charts = [Chart (replicate (frame_count out) (torch_mean (store s ! latent_image A))
                            @ replicate (length (positive (hd (prompts A))) - frame_count out) (Num 0))
                       ''Latent Means''])"
proof -
  have step: "iterateLatentByMode X latent (latent_mode A) modLimit modifier s = (latent, s)"
    using assms by (simp add: iterateLatentByMode_static)
  have nb: "\<not> (latent_mode A = LATENT_MODE_BOUNCE \<and> latent_mod_limit A \<le> 0)"
    using assms by simp
  have calls: "\<exists>cs. sampler_calls (snd (process_loop X A s)) = sampler_calls s @ cs
           \<and> (\<forall>c\<in>set cs. call_latent c = store s ! latent_image A)"
  proof (cases "prompts A")
    case Nil
    then show ?thesis using process_loop_reject [of A X s] by simp
  next
    case (Cons p0 ps)
    from frames_static [OF assms, of X "length (positive p0)" "length (prompts A)"
        "[0..<length (positive p0)]"
        "\<lparr>latentTensor = length (store s), loop_seed = seed A,
          promptPos = buildComfyUiPrompt (positive p0) (positivePool p0),
          promptNeg = buildComfyUiPrompt (negative p0) (negativePool p0),
          outputTensor = None, latentTensorMeans = replicate (length (positive p0)) (Num 0)\<rparr>"
        "s\<lparr>py_random := random_seed X (seed A), store := store s @ [store s ! latent_image A]\<rparr>"]
    show ?thesis
      unfolding process_loop_enter [OF Cons nb] by simp
  qed
  have traj: "\<forall>out charts s'. process X A s = (Inr (out, charts), s') \<longrightarrow>
           charts = [Chart (replicate (frame_count out) (torch_mean (store s ! latent_image A))
                            @ replicate (length (positive (hd (prompts A))) - frame_count out) (Num 0))
                       ''Latent Means'']"
  proof (intro allI impI)
    fix out charts s'
    assume run: "process X A s = (Inr (out, charts), s')"
    from process_Inr [OF run] obtain L p0 ps where
      L: "process_loop X A s = (Inr L, s')" "out = outputTensor L"
        "charts = [Chart (latentTensorMeans L) ''Latent Means'']"
      and p: "prompts A = p0 # ps"
      by blast
    let ?n = "length (positive p0)"
    let ?v = "torch_mean (store s ! latent_image A)"
    from L(1) frames_static_means [OF assms, of X ?n "length (prompts A)" "[0..<?n]" _ _ L s']
    obtain m where m: "m \<le> ?n" "frame_count (outputTensor L) = m"
      "length (latentTensorMeans L) = ?n"
      "\<forall>j. j \<notin> set (take m [0..<?n]) \<longrightarrow> latentTensorMeans L ! j = replicate ?n (Num 0) ! j"
      "\<forall>j. j \<in> set (take m [0..<?n]) \<and> j < ?n \<longrightarrow> latentTensorMeans L ! j = ?v"
      unfolding process_loop_enter [OF p nb] by (fastforce simp: frame_count_def)
    from m(1) have tk: "take m [0..<?n] = [0..<m]" by (simp add: take_upt)
    have "latentTensorMeans L = replicate m ?v @ replicate (?n - m) (Num 0)"
    proof (rule nth_equalityI)
      show "length (latentTensorMeans L) = length (replicate m ?v @ replicate (?n - m) (Num 0))"
        using m(1,3) by simp
    next
      fix j assume "j < length (latentTensorMeans L)"
      with m(3) have j: "j < ?n" by simp
      show "latentTensorMeans L ! j = (replicate m ?v @ replicate (?n - m) (Num 0)) ! j"
      proof (cases "j < m")
        case True
        with m(5) j tk show ?thesis by (simp add: nth_append)
      next
        case False
        with m(4) j tk show ?thesis by (simp add: nth_append)
      qed
    qed
    with L m(2) p show "charts = [Chart (replicate (frame_count out) ?v
        @ replicate (length (positive (hd (prompts A))) - frame_count out) (Num 0)) ''Latent Means'']"
      by simp
  qed
  from step calls traj show ?thesis by (simp add: snd_process)
qed

theorem static_run_witness:
  "iterateLatentByMode stub 0 LATENT_MODE_STATIC 5 1 (state_of [[1, 3]] True) = (0, state_of [[1, 3]] True)
   \<and> map call_latent (sampler_calls (snd (process stub (inputs_of 3 [1, 1, 1] LATENT_MODE_STATIC 2 5)
        (state_of [[1, 3]] True)))) = [[1, 3], [1, 3]]
   \<and> fst (process stub (inputs_of 3 [1, 1, 1] LATENT_MODE_STATIC 2 5) (state_of [[1, 3]] True)) =
       Inr (Some [[1, 3], [1, 3]], [Chart [Num 2, Num 2, Num 0] ''Latent Means''])"
  using static_run [of "inputs_of 3 [1, 1, 1] LATENT_MODE_STATIC 2 5" stub 0 5 1 "state_of [[1, 3]] True"]
  by (simp add: run_defs)

subsection \<open>The caller's latent\<close>

text \<open>
  C9. \<^verbatim>\<open>process\<close> never changes the caller's tensor \<^verbatim>\<open>latent_image["samples"]\<close>: the loop
  works on the clone made before it, so every tensor object that existed at the call,
  the caller's among them, holds its original elements afterwards, in every mode and
  whether the run returns or raises.
\<close>

theorem caller_latent_not_mutated:
  "take (length (store s)) (store (snd (process X A s))) = store s
   \<and> (latent_image A < length (store s) \<longrightarrow>
        store (snd (process X A s)) ! latent_image A = store s ! latent_image A)"
proof -
  have t: "take (length (store s)) (store (snd (process_loop X A s))) = store s"
  proof (cases "prompts A = [] \<or> latent_mode A = LATENT_MODE_BOUNCE \<and> latent_mod_limit A \<le> 0")
    case True
    from process_loop_reject [OF True] show ?thesis by simp
  next
    case False
    then obtain p0 ps where p: "prompts A = p0 # ps" by (cases "prompts A") auto
    from False have nb: "\<not> (latent_mode A = LATENT_MODE_BOUNCE \<and> latent_mod_limit A \<le> 0)" by simp
    show ?thesis
      unfolding process_loop_enter [OF p nb]
      by (subst frames_store) simp_all
  qed
  then have "take (length (store s)) (store (snd (process X A s))) = store s"
    by (simp add: snd_process)
  moreover have "latent_image A < length (store s) \<longrightarrow>
        store (snd (process X A s)) ! latent_image A = store s ! latent_image A"
  proof
    assume a: "latent_image A < length (store s)"
    then have "store s ! latent_image A
        = take (length (store s)) (store (snd (process X A s))) ! latent_image A"
      using calculation by simp
    also have "\<dots> = store (snd (process X A s)) ! latent_image A"
      using a by simp
    finally show "store (snd (process X A s)) ! latent_image A = store s ! latent_image A" by simp
  qed
  ultimately show ?thesis by blast
qed

theorem caller_latent_not_mutated_witness:
  "store (snd (process stub (inputs_of 2 [1, 1] LATENT_MODE_INCREASE (- 1) 5) (state_of [[0, 0]] True))) ! 0
     = [0, 0]
   \<and> store (snd (process stub (inputs_of 2 [1, 1] LATENT_MODE_INCREASE (- 1) 5) (state_of [[0, 0]] True)))
     = [[0, 0], [2, 2]]"
  using caller_latent_not_mutated [of "state_of [[0, 0]] True" stub
      "inputs_of 2 [1, 1] LATENT_MODE_INCREASE (- 1) 5"]
  by (simp add: run_defs)

subsection \<open>The trajectory handed to the chart\<close>

text \<open>
  C10. The series handed to \<^verbatim>\<open>chartData\<close> always has \<open>desiredFrames =
  len(prompts[0].positive)\<close> entries, whatever \<open>image_limit\<close> is: it starts as zeros and
  entry \<open>i\<close> is written only for a frame that was produced, so the entries from the
  number of produced frames on are still \<open>0.0\<close> in the chart.
\<close>

theorem trajectory_length:
  assumes "process X A s = (Inr (out, charts), s')"
  shows "\<exists>series cs. charts = [Chart series ''Latent Means'']
           \<and> length series = length (positive (hd (prompts A)))
           \<and> sampler_calls s' = sampler_calls s @ cs
           \<and> length cs = frame_count out
           \<and> frame_count out \<le> length series
           \<and> (\<forall>i. i < frame_count out \<longrightarrow> series ! i = torch_mean (call_latent (cs ! i)))
           \<and> (\<forall>i. frame_count out \<le> i \<and> i < length series \<longrightarrow> series ! i = Num 0)"
proof -
  from process_Inr [OF assms] obtain L p0 ps where
    L: "process_loop X A s = (Inr L, s')" "out = outputTensor L"
      "charts = [Chart (latentTensorMeans L) ''Latent Means'']"
    and p: "prompts A = p0 # ps"
    and nb: "\<not> (latent_mode A = LATENT_MODE_BOUNCE \<and> latent_mod_limit A \<le> 0)"
    by blast
  let ?n = "length (positive p0)"
  let ?L0 = "\<lparr>latentTensor = length (store s), loop_seed = seed A,
      promptPos = buildComfyUiPrompt (positive p0) (positivePool p0),
      promptNeg = buildComfyUiPrompt (negative p0) (negativePool p0),
      outputTensor = None, latentTensorMeans = replicate ?n (Num 0)\<rparr>"
  let ?s0 = "s\<lparr>py_random := random_seed X (seed A), store := store s @ [store s ! latent_image A]\<rparr>"
  from L(1) have run: "frames X A ?n (length (prompts A)) [0..<?n] ?L0 ?s0 = (Inr L, s')"
    unfolding process_loop_enter [OF p nb] .
  from frames_trajectory [OF run distinct_upt] obtain cs where cs: "length cs \<le> length [0..<?n]"
    "sampler_calls s' = sampler_calls ?s0 @ cs"
    "frame_count (outputTensor L) = frame_count (outputTensor ?L0) + length cs"
    "length (latentTensorMeans L) = length (latentTensorMeans ?L0)"
    "\<forall>j. j \<notin> set (take (length cs) [0..<?n]) \<longrightarrow>
        latentTensorMeans L ! j = latentTensorMeans ?L0 ! j"
    "\<forall>p. p < length cs \<and> [0..<?n] ! p < length (latentTensorMeans ?L0) \<longrightarrow>
        latentTensorMeans L ! ([0..<?n] ! p) = torch_mean (call_latent (cs ! p))"
    by blast
  from cs(1) have le: "length cs \<le> ?n" by simp
  from cs(2) have calls: "sampler_calls s' = sampler_calls s @ cs" by simp
  from cs(3) have fc: "frame_count (outputTensor L) = length cs" by (simp add: frame_count_def)
  from cs(4) have len: "length (latentTensorMeans L) = ?n" by simp
  from le have "take (length cs) [0..<?n] = [0..<length cs]" by (simp add: take_upt)
  with cs(5) have zeros: "\<forall>i. length cs \<le> i \<and> i < ?n \<longrightarrow> latentTensorMeans L ! i = Num 0"
    by simp
  from le cs(6) have means: "\<forall>i. i < length cs \<longrightarrow>
      latentTensorMeans L ! i = torch_mean (call_latent (cs ! i))"
    by simp
  from le calls fc len zeros means L p
  have "charts = [Chart (latentTensorMeans L) ''Latent Means'']
           \<and> length (latentTensorMeans L) = length (positive (hd (prompts A)))
           \<and> sampler_calls s' = sampler_calls s @ cs
           \<and> length cs = frame_count out
           \<and> frame_count out \<le> length (latentTensorMeans L)
           \<and> (\<forall>i. i < frame_count out \<longrightarrow>
                 latentTensorMeans L ! i = torch_mean (call_latent (cs ! i)))
           \<and> (\<forall>i. frame_count out \<le> i \<and> i < length (latentTensorMeans L) \<longrightarrow>
                 latentTensorMeans L ! i = Num 0)"
    by simp
  then show ?thesis by blast
qed

theorem trajectory_length_witness:
  "fst (process stub (inputs_of 4 [1, 1, 1, 1] LATENT_MODE_INCREASE 2 5) (state_of [[0, 0]] True)) =
     Inr (Some [[1, 1], [2, 2]], [Chart [Num 1, Num 2, Num 0, Num 0] ''Latent Means''])
   \<and> map call_latent (sampler_calls (snd (process stub (inputs_of 4 [1, 1, 1, 1] LATENT_MODE_INCREASE 2 5)
        (state_of [[0, 0]] True)))) = [[1, 1], [2, 2]]
   \<and> (\<exists>series (cs :: ksampler_call list). [Chart [Num 1, Num 2, Num 0, Num 0] ''Latent Means''] = [Chart series ''Latent Means'']
         \<and> length series = 4 \<and> length cs = 2
         \<and> series ! 0 = torch_mean (call_latent (cs ! 0))
         \<and> series ! 1 = torch_mean (call_latent (cs ! 1))
         \<and> series ! 2 = Num 0 \<and> series ! 3 = Num 0)"
proof -
  let ?A = "inputs_of 4 [1, 1, 1, 1] LATENT_MODE_INCREASE 2 5"
  let ?out = "Some [[1, 1], [2, 2::real]]"
  let ?S = "state_of [[0, 0]] True"
  have res: "fst (process stub ?A ?S) =
      Inr (?out, [Chart [Num 1, Num 2, Num 0, Num 0] ''Latent Means''])"
    by (simp add: run_defs)
  have calls: "map call_latent (sampler_calls (snd (process stub ?A ?S))) = [[1, 1], [2, 2]]"
    by (simp add: run_defs)
  from res have run: "process stub ?A ?S =
      (Inr (?out, [Chart [Num 1, Num 2, Num 0, Num 0] ''Latent Means'']), snd (process stub ?A ?S))"
    by (simp add: prod_eq_iff)
  have fc: "frame_count ?out = 2" by (simp add: frame_count_def)
  have n: "length (positive (hd (prompts ?A))) = 4" by (simp add: inputs_of_def prompt_of_def)
  have "\<exists>series (cs :: ksampler_call list).
      [Chart [Num 1, Num 2, Num 0, Num 0] ''Latent Means''] = [Chart series ''Latent Means'']
      \<and> length series = 4 \<and> length cs = 2
      \<and> series ! 0 = torch_mean (call_latent (cs ! 0))
      \<and> series ! 1 = torch_mean (call_latent (cs ! 1))
      \<and> series ! 2 = Num 0 \<and> series ! 3 = Num 0"
    using trajectory_length [OF run]
  proof (elim exE conjE)
    fix series :: "scalar list" and cs :: "ksampler_call list"
    assume sc: "[Chart [Num 1, Num 2, Num 0, Num 0] ''Latent Means''] = [Chart series ''Latent Means'']"
      "length series = length (positive (hd (prompts ?A)))"
      "length cs = frame_count ?out"
      "\<forall>i. i < frame_count ?out \<longrightarrow> series ! i = torch_mean (call_latent (cs ! i))"
      "\<forall>i. frame_count ?out \<le> i \<and> i < length series \<longrightarrow> series ! i = Num 0"
    from sc(4) [rule_format, of 0] sc(4) [rule_format, of 1] fc
    have m: "series ! 0 = torch_mean (call_latent (cs ! 0))"
      "series ! 1 = torch_mean (call_latent (cs ! 1))" by simp_all
    from sc(5) [rule_format, of 2] sc(5) [rule_format, of 3] sc(2) fc n
    have z: "series ! 2 = Num 0" "series ! 3 = Num 0" by simp_all
    from sc(1,2,3) n fc m z
    have all: "[Chart [Num 1, Num 2, Num 0, Num 0] ''Latent Means''] = [Chart series ''Latent Means'']
      \<and> length series = 4 \<and> length cs = 2
      \<and> series ! 0 = torch_mean (call_latent (cs ! 0))
      \<and> series ! 1 = torch_mean (call_latent (cs ! 1))
      \<and> series ! 2 = Num 0 \<and> series ! 3 = Num 0"
      by simp
    show ?thesis
      by (rule exI [of _ series], rule exI [of _ cs], rule all)
  qed
  with res calls show ?thesis by (intro conjI)
qed

end
